theory Spec2Isabelle
  imports Main
begin

section \<open>The news-feed pipeline: data model\<close>

text \<open>
  The program polls categorised RSS feeds, drops entries that were handled before or are
  older than 24 hours, asks an oracle whether each remaining article is relevant, posts
  the relevant ones to the category's webhook and records every handled link in a ledger
  file. The repository holds several copies of this pipeline; the model follows the
  fullest one (with the relevance check and the structured log), whose ledger code and
  extraction loop the older copies share.

  Strings are lists of code units (the model covers code units below 256). Timestamps are
  integers (epoch milliseconds). The ledger \<open>PostedArticles\<close> is the object
  \<open>{ [url: string]: number }\<close>: a map from links to timestamps. Its keys are article
  links; a lookup reads the object's own entries.
\<close>

type_synonym PostedArticles = "string \<rightharpoonup> int"

datatype Category = technology | corporate_finance | eam_build_up

record Feed =
  name :: string
  url :: string

type_synonym FeedsConfig = "Category \<Rightarrow> Feed list"

text \<open>
  A feed entry as the parser delivers it. \<open>media_content_url\<close> stands for
  \<open>item["media:content"]?.$?.url\<close>, \<open>media_thumbnail_url\<close> for
  \<open>item["media:thumbnail"]?.$?.url\<close> and \<open>enclosure_url\<close> for
  \<open>item.enclosure?.url\<close>.
\<close>

record Item =
  item_link :: "string option"
  item_title :: "string option"
  pubDate :: "string option"
  contentSnippet :: "string option"
  content :: "string option"
  item_summary :: "string option"
  media_content_url :: "string option"
  media_thumbnail_url :: "string option"
  enclosure_url :: "string option"

record Article =
  title :: string
  link :: string
  source :: string
  summary :: string
  imageUrl :: "string option"

subsection \<open>The outside world\<close>

text \<open>A parsed JSON value (the result of \<open>response.json()\<close>).\<close>

datatype json =
  JNull | JBool bool | JNum int | JStr string | JArr "json list" | JObj "(string \<times> json) list"

text \<open>
  What one \<open>fetch\<close> of the classification oracle comes to: the call throws, or a
  response arrives with its \<open>ok\<close> flag and its body (\<open>None\<close> when the body does not
  parse as JSON, so that \<open>response.json()\<close> throws). Likewise for the webhook, whose
  body is read as text (\<open>None\<close> when \<open>response.text()\<close> throws).
\<close>

datatype OracleReply = OracleThrows | OracleResponse bool "json option"

datatype SlackReply = SlackThrows | SlackResponse bool "string option"

text \<open>
  The ledger file: absent, present with content that \<open>JSON.parse\<close> rejects, or
  holding a ledger (parsed content is taken at its declared type \<open>PostedArticles\<close>).
\<close>

datatype PostedFile = Missing | Unparseable | Stored PostedArticles

text \<open>The errors that leave \<open>main\<close>.\<close>

datatype Thrown = FeedsConfigError | WriteError

text \<open>
  The calls a run makes, in order: a feed fetched (by URL), \<open>isRelevant\<close> returning for
  an article, \<open>postToSlack\<close> returning for an article, the assignment
  \<open>posted[link] = Date.now()\<close>, the pacing \<open>delay\<close>, and \<open>savePosted\<close> (with
  whether the write went through).
\<close>

datatype Event =
    Fetched string
  | Classified Article Category bool
  | Published string Article bool
  | Marked string int
  | Delayed int
  | Saved bool

text \<open>
  The environment of a run. Every interaction with the outside (a clock reading, a
  fetch, a file write) takes place at a step of the run, counted from the state's
  \<open>step\<close>; what the outside answers may depend on the step, so two calls with the same
  arguments need not agree.
  \<^item> \<open>ANTHROPIC_API_KEY\<close>, \<open>WEBHOOK_MAP\<close>: the environment variables;
  \<^item> \<open>FEEDS_FILE\<close>: the feeds configuration, \<open>None\<close> when reading or parsing it throws;
  \<^item> \<open>Date_now\<close>: the clock reading at a step;
  \<^item> \<open>Date_getTime\<close>: \<open>new Date(s).getTime()\<close>, \<open>None\<close> for \<open>NaN\<close> (an invalid date);
  \<^item> \<open>parseURL\<close>: the feed parser, \<open>None\<close> when it throws;
  \<^item> \<open>anthropic\<close>, \<open>slack\<close>: the two HTTP endpoints;
  \<^item> \<open>writeFileSync\<close>: \<open>None\<close> when the write goes through, otherwise it throws and
    leaves the file as given;
  \<^item> \<open>imgSrc\<close>: the search for an image tag in raw HTML (see \<open>getImageUrl\<close>).
\<close>

record World =
  ANTHROPIC_API_KEY :: "string option"
  WEBHOOK_MAP :: "Category \<Rightarrow> string option"
  FEEDS_FILE :: "FeedsConfig option"
  Date_now :: "nat \<Rightarrow> int"
  Date_getTime :: "string \<Rightarrow> int option"
  parseURL :: "nat \<Rightarrow> string \<Rightarrow> Item list option"
  anthropic :: "nat \<Rightarrow> Category \<Rightarrow> Article \<Rightarrow> OracleReply"
  slack :: "nat \<Rightarrow> string \<Rightarrow> Article \<Rightarrow> SlackReply"
  writeFileSync :: "nat \<Rightarrow> PostedFile option"
  imgSrc :: "string \<Rightarrow> string option"

text \<open>
  The state a run threads through: the in-memory ledger (the object \<open>posted\<close> of
  \<open>main\<close>), the ledger file \<open>disk\<close>, the step counter and the calls made so far.
\<close>

record State =
  ledger :: PostedArticles
  disk :: PostedFile
  step :: nat
  trace :: "Event list"

section \<open>Ledger store\<close>

definition loadPosted :: "PostedFile \<Rightarrow> PostedArticles" where
  "loadPosted f = (case f of Stored p \<Rightarrow> p | _ \<Rightarrow> Map.empty)"

text \<open>
  \<open>cleanOldEntries\<close> reads the clock once (\<open>now\<close> is that reading), visits every
  entry of \<open>posted\<close> and copies it into a fresh object when its timestamp is above
  the cutoff.
\<close>

definition cleanOldEntries :: "int \<Rightarrow> PostedArticles \<Rightarrow> PostedArticles" where
  "cleanOldEntries now posted =
     (let cutoff = now - 7 * 24 * 60 * 60 * 1000
      in (\<lambda>u. case posted u of
                   None \<Rightarrow> None
                 | Some timestamp \<Rightarrow> if timestamp > cutoff then Some timestamp else None))"

section \<open>Text helpers\<close>

text \<open>
  \<open>text.slice(0, end)\<close>: a negative \<open>end\<close> counts from the end of the string, and
  the result is empty when that falls before the start.
\<close>

definition slice0 :: "string \<Rightarrow> int \<Rightarrow> string" where
  "slice0 text e =
     (if e < 0 then take (nat (int (length text) + e)) text else take (nat e) text)"

definition truncate :: "string \<Rightarrow> int \<Rightarrow> string" where
  "truncate text maxLength =
     (if int (length text) \<le> maxLength then text
      else slice0 text (maxLength - 3) @ ''...'')"

text \<open>The property "the string ends in the three-character ellipsis marker".\<close>

definition endsWithEllipsis :: "string \<Rightarrow> bool" where
  "endsWithEllipsis s = (3 \<le> length s \<and> drop (length s - 3) s = ''...'')"

text \<open>
  \<open>content.replace(/<[^>]*>/g, "")\<close>: scanning from the left, a \<open><\<close> that has a
  \<open>>\<close> somewhere after it is removed together with everything up to and including the
  first such \<open>>\<close>; any other code unit is kept.
\<close>

function stripTags :: "string \<Rightarrow> string" where
  "stripTags [] = []"
| "stripTags (c # cs) =
     (if c = CHR ''<'' \<and> CHR ''>'' \<in> set cs
      then stripTags (tl (dropWhile (\<lambda>x. x \<noteq> CHR ''>'') cs))
      else c # stripTags cs)"
  by pat_completeness auto
termination
proof (relation "measure length")
  fix c :: char and cs :: string
  have "length (dropWhile (\<lambda>x. x \<noteq> CHR ''>'') cs) \<le> length cs"
    by (rule length_dropWhile_le)
  then show "(tl (dropWhile (\<lambda>x. x \<noteq> CHR ''>'') cs), c # cs) \<in> measure length"
    by simp
qed simp_all

text \<open>
  White space as \<open>String.prototype.trim\<close> sees it, among code units below 256: tab, line
  feed, vertical tab, form feed, carriage return, space and no-break space.
\<close>

definition isWhiteSpace :: "char \<Rightarrow> bool" where
  "isWhiteSpace c = (of_char c \<in> {9, 10, 11, 12, 13, 32, 160 :: nat})"

definition trim :: "string \<Rightarrow> string" where
  "trim s = rev (dropWhile isWhiteSpace (rev (dropWhile isWhiteSpace s)))"

text \<open>\<open>toLowerCase\<close> on code units below 256: A-Z and the Latin-1 capitals.\<close>

definition lowerChar :: "char \<Rightarrow> char" where
  "lowerChar c =
     (let n = of_char c :: nat
      in if (65 \<le> n \<and> n \<le> 90) \<or> (192 \<le> n \<and> n \<le> 222 \<and> n \<noteq> 215)
         then char_of (n + 32) else c)"

definition toLowerCase :: "string \<Rightarrow> string" where
  "toLowerCase s = map lowerChar s"

section \<open>Truthiness\<close>

text \<open>
  A value of type \<open>string | undefined\<close> in a boolean position: \<open>undefined\<close> and the
  empty string are falsy. A value of type \<open>number | undefined\<close> in a boolean position:
  \<open>undefined\<close> and \<open>0\<close> are falsy.
\<close>

definition truthy :: "string option \<Rightarrow> bool" where
  "truthy v = (case v of None \<Rightarrow> False | Some s \<Rightarrow> s \<noteq> [])"

definition truthyNumber :: "int option \<Rightarrow> bool" where
  "truthyNumber v = (case v of None \<Rightarrow> False | Some n \<Rightarrow> n \<noteq> 0)"

text \<open>\<open>a || b\<close> on optional strings: the first operand when it is truthy.\<close>

definition orElse :: "string option \<Rightarrow> string option \<Rightarrow> string option" where
  "orElse a b = (if truthy a then a else b)"

section \<open>Item extractor\<close>

definition getSummary :: "Item \<Rightarrow> string" where
  "getSummary item =
     (let html = (case orElse (contentSnippet item) (orElse (content item) (item_summary item)) of
                    None \<Rightarrow> [] | Some c \<Rightarrow> c);
          stripped = trim (stripTags html)
      in truncate stripped 200)"

text \<open>
  \<open>url.match(/\.(jpg|jpeg|png|gif|webp)/i)\<close>: some position of \<open>url\<close> starts with a
  dot and one of the extensions, letters compared without case.
\<close>

fun suffixes_of :: "string \<Rightarrow> string list" where
  "suffixes_of [] = [[]]"
| "suffixes_of (c # cs) = (c # cs) # suffixes_of cs"

definition startsWith :: "string \<Rightarrow> string \<Rightarrow> bool" where
  "startsWith s p = (take (length p) s = p)"

definition hasImageExtension :: "string \<Rightarrow> bool" where
  "hasImageExtension u =
     list_ex (\<lambda>t. list_ex (\<lambda>e. startsWith (toLowerCase t) e)
                     [''.jpg'', ''.jpeg'', ''.png'', ''.gif'', ''.webp''])
             (suffixes_of u)"

text \<open>
  \<open>getImageUrl\<close>. The last step searches the raw HTML with the pattern
  \<open><img[^>]+src=["']([^"']+)["']\<close>; the search is the world's \<open>imgSrc\<close>, which gives
  the captured group of the first match, if any.
\<close>

definition getImageUrl :: "World \<Rightarrow> Item \<Rightarrow> string option" where
  "getImageUrl w item =
     (if truthy (media_content_url item) then media_content_url item
      else if truthy (media_thumbnail_url item) then media_thumbnail_url item
      else if truthy (enclosure_url item)
              \<and> (case enclosure_url item of None \<Rightarrow> False | Some u \<Rightarrow> hasImageExtension u)
           then enclosure_url item
      else (let html = (case orElse (content item) (Some []) of None \<Rightarrow> [] | Some c \<Rightarrow> c)
            in if truthy (imgSrc w html) then imgSrc w html else None))"

text \<open>
  \<open>pubDate < cutoffTime\<close> on numbers, where the left side may be \<open>NaN\<close> (\<open>None\<close>):
  every comparison with \<open>NaN\<close> is false.
\<close>

definition lessThanNumber :: "int option \<Rightarrow> int \<Rightarrow> bool" where
  "lessThanNumber a b = (case a of None \<Rightarrow> False | Some x \<Rightarrow> x < b)"

text \<open>
  One pass of the loop over \<open>result.items\<close> in \<open>processFeed\<close>: \<open>None\<close> when the
  entry is skipped (\<open>continue\<close>), otherwise the article pushed.
\<close>

definition extractItem :: "World \<Rightarrow> Feed \<Rightarrow> PostedArticles \<Rightarrow> int \<Rightarrow> Item \<Rightarrow> Article option" where
  "extractItem w feed posted cutoffTime item =
     (if \<not> truthy (item_link item) then None
      else case item_link item of
        None \<Rightarrow> None
      | Some itemLink \<Rightarrow>
          if truthyNumber (posted itemLink) then None
          else let pubTime = (if truthy (pubDate item)
                              then (case pubDate item of None \<Rightarrow> Some 0 | Some d \<Rightarrow> Date_getTime w d)
                              else Some 0)
               in if lessThanNumber pubTime cutoffTime then None
                  else Some \<lparr> title = (case orElse (item_title item) (Some ''Untitled'') of
                                          None \<Rightarrow> ''Untitled'' | Some t \<Rightarrow> t),
                              link = itemLink,
                              source = name feed,
                              summary = getSummary item,
                              imageUrl = getImageUrl w item \<rparr>)"

fun extractItems :: "World \<Rightarrow> Feed \<Rightarrow> PostedArticles \<Rightarrow> int \<Rightarrow> Item list \<Rightarrow> Article list" where
  "extractItems w feed posted cutoffTime [] = []"
| "extractItems w feed posted cutoffTime (item # items) =
     (case extractItem w feed posted cutoffTime item of
        None \<Rightarrow> extractItems w feed posted cutoffTime items
      | Some article \<Rightarrow> article # extractItems w feed posted cutoffTime items)"

text \<open>
  \<open>processFeed\<close>: fetch and parse the feed, then run the loop; a fetch that throws is
  caught and leaves the list of articles empty.
\<close>

definition processFeed :: "World \<Rightarrow> Feed \<Rightarrow> PostedArticles \<Rightarrow> int \<Rightarrow> State \<Rightarrow> Article list \<times> State" where
  "processFeed w feed posted cutoffTime s =
     ((case parseURL w (step s) (url feed) of
         None \<Rightarrow> []
       | Some items \<Rightarrow> extractItems w feed posted cutoffTime items),
      s\<lparr> step := Suc (step s), trace := trace s @ [Fetched (url feed)] \<rparr>)"

section \<open>Relevance classifier\<close>

text \<open>
  Reading a property of a parsed value that is neither \<open>null\<close> nor \<open>undefined\<close>:
  an object gives the value stored under the key (the last one, when the text repeated
  the key), anything else gives \<open>undefined\<close> (\<open>None\<close>). \<open>jsFirst\<close> is the read
  \<open>v[0]\<close>: the first element of an array, the first code unit of a string.
\<close>

definition jsProp :: "json \<Rightarrow> string \<Rightarrow> json option" where
  "jsProp v k = (case v of JObj kvs \<Rightarrow> map_of (rev kvs) k | _ \<Rightarrow> None)"

definition jsFirst :: "json \<Rightarrow> json option" where
  "jsFirst v =
     (case v of
        JArr xs \<Rightarrow> (case xs of [] \<Rightarrow> None | x # _ \<Rightarrow> Some x)
      | JStr s \<Rightarrow> (case s of [] \<Rightarrow> None | c # _ \<Rightarrow> Some (JStr [c]))
      | JObj kvs \<Rightarrow> map_of (rev kvs) ''0''
      | _ \<Rightarrow> None)"

text \<open>
  \<open>data.content[0]?.text?.toLowerCase().trim()\<close>. The outer \<open>None\<close> is a thrown
  \<open>TypeError\<close>: \<open>data\<close> is \<open>null\<close>, \<open>data.content\<close> is \<open>null\<close> or
  \<open>undefined\<close>, or \<open>text\<close> is present and not a string (so that it has no
  \<open>toLowerCase\<close>). \<open>Some None\<close> is the answer \<open>undefined\<close>: the optional chain
  stopped at a missing or \<open>null\<close> first block or \<open>text\<close>.
\<close>

definition blockText :: "json \<Rightarrow> string option option" where
  "blockText block =
     (case jsProp block ''text'' of
        None \<Rightarrow> Some None
      | Some t \<Rightarrow> (case t of
            JNull \<Rightarrow> Some None
          | JStr str \<Rightarrow> Some (Some (trim (toLowerCase str)))
          | _ \<Rightarrow> None))"

definition firstBlockText :: "json \<Rightarrow> string option option" where
  "firstBlockText blocks =
     (case jsFirst blocks of
        None \<Rightarrow> Some None
      | Some block \<Rightarrow> (case block of JNull \<Rightarrow> Some None | _ \<Rightarrow> blockText block))"

definition answerOf :: "json \<Rightarrow> string option option" where
  "answerOf data =
     (case data of
        JNull \<Rightarrow> None
      | _ \<Rightarrow> (case jsProp data ''content'' of
                None \<Rightarrow> None
              | Some blocks \<Rightarrow> (case blocks of JNull \<Rightarrow> None | _ \<Rightarrow> firstBlockText blocks)))"

text \<open>
  \<open>isRelevant\<close>. Without a truthy API key no request is made. Otherwise one request
  is made (one step of the run); a thrown fetch, a response that is not \<open>ok\<close>, a body
  that does not parse and a \<open>TypeError\<close> while reading the answer all return
  \<open>true\<close>; in every other case the result is \<open>answer === "yes"\<close>.
\<close>

definition isRelevant :: "World \<Rightarrow> Article \<Rightarrow> Category \<Rightarrow> State \<Rightarrow> bool \<times> State" where
  "isRelevant w article category s =
     (if \<not> truthy (ANTHROPIC_API_KEY w) then (True, s)
      else
        ((case anthropic w (step s) category article of
            OracleThrows \<Rightarrow> True
          | OracleResponse ok body \<Rightarrow>
              if \<not> ok then True
              else (case body of
                      None \<Rightarrow> True
                    | Some data \<Rightarrow> (case answerOf data of
                                      None \<Rightarrow> True
                                    | Some answer \<Rightarrow> answer = Some ''yes''))),
         s\<lparr> step := Suc (step s) \<rparr>))"

section \<open>Publisher\<close>

text \<open>
  \<open>postToSlack\<close>: one request (one step of the run). A thrown fetch and a body that
  cannot be read are caught and give \<open>false\<close>; otherwise the result is the response's
  \<open>ok\<close> flag.
\<close>

definition postToSlack :: "World \<Rightarrow> string \<Rightarrow> Article \<Rightarrow> State \<Rightarrow> bool \<times> State" where
  "postToSlack w webhookUrl article s =
     ((case slack w (step s) webhookUrl article of
         SlackThrows \<Rightarrow> False
       | SlackResponse ok body \<Rightarrow> (case body of None \<Rightarrow> False | Some _ \<Rightarrow> ok)),
      s\<lparr> step := Suc (step s) \<rparr>)"

section \<open>Pipeline orchestrator\<close>

text \<open>The statement \<open>posted[article.link] = Date.now()\<close>: one clock reading.\<close>

definition markPosted :: "World \<Rightarrow> string \<Rightarrow> State \<Rightarrow> State" where
  "markPosted w l s =
     s\<lparr> ledger := (ledger s)(l \<mapsto> Date_now w (step s)),
        step := Suc (step s),
        trace := trace s @ [Marked l (Date_now w (step s))] \<rparr>"

definition record_event :: "Event \<Rightarrow> State \<Rightarrow> State" where
  "record_event e s = s\<lparr> trace := trace s @ [e] \<rparr>"

text \<open>The body of the loop \<open>for (const article of articles)\<close> in \<open>main\<close>.\<close>

definition handleArticle :: "World \<Rightarrow> Category \<Rightarrow> string \<Rightarrow> Article \<Rightarrow> State \<Rightarrow> State" where
  "handleArticle w category webhookUrl article s =
     (case isRelevant w article category s of
        (relevant, s1) \<Rightarrow>
          let s2 = record_event (Classified article category relevant) s1
          in if \<not> relevant then markPosted w (link article) s2
             else (case postToSlack w webhookUrl article s2 of
                     (success, s3) \<Rightarrow>
                       let s4 = record_event (Published webhookUrl article success) s3;
                           s5 = (if success then markPosted w (link article) s4 else s4)
                       in record_event (Delayed 1000) s5))"

fun handleArticles :: "World \<Rightarrow> Category \<Rightarrow> string \<Rightarrow> Article list \<Rightarrow> State \<Rightarrow> State" where
  "handleArticles w category webhookUrl [] s = s"
| "handleArticles w category webhookUrl (article # articles) s =
     handleArticles w category webhookUrl articles (handleArticle w category webhookUrl article s)"

text \<open>The body of the loop \<open>for (const feed of feedList)\<close>.\<close>

definition handleFeed :: "World \<Rightarrow> Category \<Rightarrow> string \<Rightarrow> int \<Rightarrow> Feed \<Rightarrow> State \<Rightarrow> State" where
  "handleFeed w category webhookUrl cutoffTime feed s =
     (case processFeed w feed (ledger s) cutoffTime s of
        (articles, s1) \<Rightarrow> handleArticles w category webhookUrl articles s1)"

fun handleFeeds :: "World \<Rightarrow> Category \<Rightarrow> string \<Rightarrow> int \<Rightarrow> Feed list \<Rightarrow> State \<Rightarrow> State" where
  "handleFeeds w category webhookUrl cutoffTime [] s = s"
| "handleFeeds w category webhookUrl cutoffTime (feed # feedList) s =
     handleFeeds w category webhookUrl cutoffTime feedList
       (handleFeed w category webhookUrl cutoffTime feed s)"

text \<open>The body of the loop \<open>for (const category of categories)\<close>.\<close>

definition handleCategory :: "World \<Rightarrow> FeedsConfig \<Rightarrow> int \<Rightarrow> Category \<Rightarrow> State \<Rightarrow> State" where
  "handleCategory w feeds cutoffTime category s =
     (if \<not> truthy (WEBHOOK_MAP w category) then s
      else case WEBHOOK_MAP w category of
        None \<Rightarrow> s
      | Some webhookUrl \<Rightarrow> handleFeeds w category webhookUrl cutoffTime (feeds category) s)"

fun handleCategories :: "World \<Rightarrow> FeedsConfig \<Rightarrow> int \<Rightarrow> Category list \<Rightarrow> State \<Rightarrow> State" where
  "handleCategories w feeds cutoffTime [] s = s"
| "handleCategories w feeds cutoffTime (category # categories) s =
     handleCategories w feeds cutoffTime categories (handleCategory w feeds cutoffTime category s)"

definition HOURS_24 :: int where
  "HOURS_24 = 24 * 60 * 60 * 1000"

definition categories :: "Category list" where
  "categories = [technology, corporate_finance, eam_build_up]"

text \<open>
  \<open>savePosted\<close> writes the whole in-memory ledger over the file; a failed write throws.
\<close>

definition savePosted :: "World \<Rightarrow> State \<Rightarrow> (Thrown + unit) \<times> State" where
  "savePosted w s =
     (case writeFileSync w (step s) of
        None \<Rightarrow> (Inr (), s\<lparr> disk := Stored (ledger s), step := Suc (step s),
                             trace := trace s @ [Saved True] \<rparr>)
      | Some f \<Rightarrow> (Inl WriteError, s\<lparr> disk := f, step := Suc (step s),
                                       trace := trace s @ [Saved False] \<rparr>))"

text \<open>
  The state in which the category loop starts: the ledger loaded from the file and
  cleaned (first clock reading), and the clock read again for the 24-hour cutoff.
\<close>

definition loaded :: "World \<Rightarrow> State \<Rightarrow> State" where
  "loaded w s =
     s\<lparr> ledger := cleanOldEntries (Date_now w (step s)) (loadPosted (disk s)),
        step := Suc (Suc (step s)) \<rparr>"

definition cutoffTime_of :: "World \<Rightarrow> State \<Rightarrow> int" where
  "cutoffTime_of w s = Date_now w (Suc (step s)) - HOURS_24"

text \<open>The state after the category loop, just before \<open>savePosted\<close> is called.\<close>

definition beforeSave :: "World \<Rightarrow> FeedsConfig \<Rightarrow> State \<Rightarrow> State" where
  "beforeSave w feeds s = handleCategories w feeds (cutoffTime_of w s) categories (loaded w s)"

text \<open>
  \<open>main\<close>: load the feeds configuration (a failure throws out of \<open>main\<close> before
  anything else happens), load and clean the ledger, walk the categories, save. An error
  of \<open>savePosted\<close> is not caught in \<open>main\<close>; its caller \<open>run\<close> catches and logs
  whatever \<open>main\<close> throws.
\<close>

definition main :: "World \<Rightarrow> State \<Rightarrow> (Thrown + unit) \<times> State" where
  "main w s =
     (case FEEDS_FILE w of
        None \<Rightarrow> (Inl FeedsConfigError, s)
      | Some feeds \<Rightarrow> savePosted w (beforeSave w feeds s))"

section \<open>Reading the trace of a run\<close>

text \<open>The calls \<open>main\<close> adds to the trace.\<close>

definition run_events :: "World \<Rightarrow> State \<Rightarrow> Event list" where
  "run_events w s = drop (length (trace s)) (trace (snd (main w s)))"

text \<open>
  \<open>replay es p\<close> applies the assignments recorded in \<open>es\<close> to the ledger \<open>p\<close>, in
  order; \<open>lastMark l es\<close> is the time of the last assignment to \<open>l\<close> in \<open>es\<close>.
\<close>

primrec replay :: "Event list \<Rightarrow> PostedArticles \<Rightarrow> PostedArticles" where
  "replay [] p = p"
| "replay (e # es) p = replay es (case e of Marked l t \<Rightarrow> p(l \<mapsto> t) | _ \<Rightarrow> p)"

fun lastMark :: "string \<Rightarrow> Event list \<Rightarrow> int option" where
  "lastMark l [] = None"
| "lastMark l (e # es) =
     (case lastMark l es of
        Some t \<Rightarrow> Some t
      | None \<Rightarrow> (case e of Marked l' t \<Rightarrow> if l' = l then Some t else None | _ \<Rightarrow> None))"

text \<open>
  \<open>handled a e\<close>: the event is article \<open>a\<close> classified as not relevant, or published
  with success (the two outcomes after which \<open>main\<close> marks the link).
  \<open>about l e\<close>: the event is the classification or the publication of an article whose
  link is \<open>l\<close>.
\<close>

definition handled :: "Article \<Rightarrow> Event \<Rightarrow> bool" where
  "handled a e = (case e of Classified a' c r \<Rightarrow> a' = a \<and> \<not> r
                          | Published u a' ok \<Rightarrow> a' = a \<and> ok
                          | _ \<Rightarrow> False)"

definition about :: "string \<Rightarrow> Event \<Rightarrow> bool" where
  "about l e = (case e of Classified a c r \<Rightarrow> link a = l
                        | Published u a ok \<Rightarrow> link a = l
                        | _ \<Rightarrow> False)"

definition isSaved :: "Event \<Rightarrow> bool" where
  "isSaved e = (case e of Saved ok \<Rightarrow> True | _ \<Rightarrow> False)"




text \<open>
  Two relations between a state and a later one, used to carry facts through the loops.
  \<open>Seg w s s'\<close>: the file is untouched, and the trace grew by events \<open>es\<close> that hold no
  save, whose assignments account for the whole change of the ledger, in which every
  assignment writes a clock reading and belongs to a handled article, and in which every
  handled article is followed by an assignment to its link.
  \<open>Kept l s s'\<close>: the ledger's entry for \<open>l\<close> is unchanged and no article with link
  \<open>l\<close> was classified or published in between.
\<close>

definition wf_events :: "World \<Rightarrow> Event list \<Rightarrow> bool" where
  "wf_events w es \<longleftrightarrow>
     \<not> list_ex isSaved es
     \<and> (\<forall>l t. Marked l t \<in> set es \<longrightarrow>
          t \<in> range (Date_now w) \<and> (\<exists>a. link a = l \<and> list_ex (handled a) es))
     \<and> (\<forall>a. list_ex (handled a) es \<longrightarrow> (\<exists>t. Marked (link a) t \<in> set es))"

definition Seg :: "World \<Rightarrow> State \<Rightarrow> State \<Rightarrow> bool" where
  "Seg w s s' \<longleftrightarrow> disk s' = disk s \<and>
     (\<exists>es. trace s' = trace s @ es \<and> ledger s' = replay es (ledger s) \<and> wf_events w es)"

definition Kept :: "string \<Rightarrow> State \<Rightarrow> State \<Rightarrow> bool" where
  "Kept l s s' \<longleftrightarrow> ledger s' l = ledger s l \<and>
     (\<exists>es. trace s' = trace s @ es \<and> \<not> list_ex (about l) es)"

text \<open>
  \<open>agree w w'\<close>: two worlds that differ at most in the values of the environment
  variables, and there only between values that are equally truthy: the API keys are both
  truthy or both falsy, and each category's webhooks are both falsy or the same.
\<close>

definition agree :: "World \<Rightarrow> World \<Rightarrow> bool" where
  "agree w w' \<longleftrightarrow>
     FEEDS_FILE w' = FEEDS_FILE w \<and> Date_now w' = Date_now w
     \<and> Date_getTime w' = Date_getTime w \<and> parseURL w' = parseURL w
     \<and> anthropic w' = anthropic w \<and> slack w' = slack w
     \<and> writeFileSync w' = writeFileSync w \<and> imgSrc w' = imgSrc w
     \<and> truthy (ANTHROPIC_API_KEY w') = truthy (ANTHROPIC_API_KEY w)
     \<and> (\<forall>c. truthy (WEBHOOK_MAP w' c) = truthy (WEBHOOK_MAP w c)
             \<and> (truthy (WEBHOOK_MAP w c) \<longrightarrow> WEBHOOK_MAP w' c = WEBHOOK_MAP w c))"

section \<open>Scenarios\<close>

text \<open>
  A small concrete world for the examples: one feed in the category \<open>technology\<close>,
  whose webhook is set; no API key; a clock that starts at 1700000000000
  (2023-11-14T22:13:20Z) and advances one millisecond per step; every request to the
  webhook succeeds and the file can be written. \<open>Date_getTime\<close> is the engine's date
  parser on the two strings the examples use: an ISO date one hour before the clock's
  start, and a string that is no date.
\<close>

definition recentDate :: string where
  "recentDate = ''2023-11-14T21:13:20.000Z''"

definition sampleFeed :: Feed where
  "sampleFeed = \<lparr> name = ''F'', url = ''http://f'' \<rparr>"

definition sampleEntry :: "string \<Rightarrow> string option \<Rightarrow> Item" where
  "sampleEntry l d =
     \<lparr> item_link = Some l, item_title = Some ''T'', pubDate = d,
       contentSnippet = Some ''S'', content = None, item_summary = None,
       media_content_url = None, media_thumbnail_url = None, enclosure_url = None \<rparr>"

definition sampleArticle :: "string \<Rightarrow> Article" where
  "sampleArticle l =
     \<lparr> title = ''T'', link = l, source = ''F'', summary = ''S'', imageUrl = None \<rparr>"

definition sampleFeeds :: FeedsConfig where
  "sampleFeeds = (\<lambda>c. if c = technology then [sampleFeed] else [])"

definition sampleWorld :: "Item list \<Rightarrow> World" where
  "sampleWorld items =
     \<lparr> ANTHROPIC_API_KEY = None,
       WEBHOOK_MAP = (\<lambda>c. if c = technology then Some ''hook'' else None),
       FEEDS_FILE = Some sampleFeeds,
       Date_now = (\<lambda>n. 1700000000000 + int n),
       Date_getTime = (\<lambda>d. if d = recentDate then Some 1699996400000 else None),
       parseURL = (\<lambda>n u. Some items),
       anthropic = (\<lambda>n c a. OracleThrows),
       slack = (\<lambda>n u a. SlackResponse True (Some ''ok'')),
       writeFileSync = (\<lambda>n. None),
       imgSrc = (\<lambda>h. None) \<rparr>"

definition freshState :: State where
  "freshState = \<lparr> ledger = Map.empty, disk = Missing, step = 0, trace = [] \<rparr>"

definition storedState :: "PostedArticles \<Rightarrow> State" where
  "storedState p = \<lparr> ledger = Map.empty, disk = Stored p, step = 0, trace = [] \<rparr>"

text \<open>
  Variations: the first request to the webhook (step 3 of a run that starts at step 0)
  throws; an API key is set and the oracle answers every request with the given body.
\<close>

definition worldFirstPostFails :: "Item list \<Rightarrow> World" where
  "worldFirstPostFails items =
     (sampleWorld items)
       \<lparr> slack := (\<lambda>n u a. if n = 3 then SlackThrows else SlackResponse True (Some ''ok'')) \<rparr>"

definition worldOracle :: "json \<Rightarrow> World" where
  "worldOracle body =
     (sampleWorld [])
       \<lparr> ANTHROPIC_API_KEY := Some ''key'',
         anthropic := (\<lambda>n c a. OracleResponse True (Some body)) \<rparr>"

text \<open>
  The runs of the examples: the feed offers \<open>a\<close> once; \<open>a\<close> twice; \<open>a\<close> with a
  date that does not parse; \<open>a\<close> twice, the first publish failing; \<open>a\<close> then
  \<open>b\<close>, the first publish failing; nothing, and the file cannot be written.
\<close>

definition entryA :: Item where
  "entryA = sampleEntry ''a'' (Some recentDate)"

definition entryB :: Item where
  "entryB = sampleEntry ''b'' (Some recentDate)"

definition worldOnce :: World where
  "worldOnce = sampleWorld [entryA]"

definition worldTwice :: World where
  "worldTwice = sampleWorld [entryA, entryA]"

definition worldBadDate :: World where
  "worldBadDate = sampleWorld [sampleEntry ''a'' (Some ''not a date'')]"

definition worldRetry :: World where
  "worldRetry = worldFirstPostFails [entryA, entryA]"

definition worldFailThenPost :: World where
  "worldFailThenPost = worldFirstPostFails [entryA, entryB]"

text \<open>A ledger file with one entry of the same day and one older than seven days.\<close>

definition oldLedger :: PostedArticles where
  "oldLedger = [''b'' \<mapsto> 1699990000000, ''c'' \<mapsto> 5]"

definition worldNoWrite :: World where
  "worldNoWrite = (sampleWorld []) \<lparr> writeFileSync := (\<lambda>n. Some Unparseable) \<rparr>"

section \<open>Properties of the text helpers\<close>

lemma endsWithEllipsis_append: "endsWithEllipsis (p @ ''...'')"
  by (simp add: endsWithEllipsis_def)

lemma truncate_short: "int (length s) \<le> n \<Longrightarrow> truncate s n = s"
  by (simp add: truncate_def)

lemma truncate_long:
  assumes "3 \<le> n" and "n < int (length s)"
  shows "truncate s n = take (nat (n - 3)) s @ ''...''"
  using assms by (simp add: truncate_def slice0_def)

lemma truncate_length:
  assumes "3 \<le> n"
  shows "int (length (truncate s n)) \<le> n"
proof (cases "int (length s) \<le> n")
  case True
  then show ?thesis by (simp add: truncate_short)
next
  case False
  with assms have "truncate s n = take (nat (n - 3)) s @ ''...''"
    by (simp add: truncate_long)
  moreover from assms False have "length (take (nat (n - 3)) s) = nat (n - 3)"
    by simp
  ultimately show ?thesis using assms by simp
qed

text \<open>
  C4 (as stated, refuted). The string \<open>...\<close> is within the budget 3, so it is returned
  unchanged and no truncation occurred; yet the result ends in the marker.
\<close>

theorem C4_truncate_marker_counterexample:
  "\<not> (endsWithEllipsis (truncate ''...'' 3) \<longleftrightarrow> int (length ''...'') > 3)"
  by (simp add: truncate_def endsWithEllipsis_def)

text \<open>
  C4 (amended). For every string \<open>s\<close> and every budget \<open>n \<ge> 3\<close>: the result of
  \<open>truncate s n\<close> is at most \<open>n\<close> long; it is \<open>s\<close> itself when \<open>s\<close> fits; when
  \<open>s\<close> does not fit it is the first \<open>n - 3\<close> code units of \<open>s\<close> followed by the
  marker; and it ends in the marker exactly when truncation occurred or \<open>s\<close> itself
  already ended in the marker.
\<close>

theorem C4_truncate:
  assumes "3 \<le> n"
  shows "int (length (truncate s n)) \<le> n
    \<and> (int (length s) \<le> n \<longrightarrow> truncate s n = s)
    \<and> (n < int (length s) \<longrightarrow> truncate s n = take (nat (n - 3)) s @ ''...'')
    \<and> (endsWithEllipsis (truncate s n) \<longleftrightarrow> (n < int (length s) \<or> endsWithEllipsis s))"
proof -
  have len: "int (length (truncate s n)) \<le> n"
    using assms by (rule truncate_length)
  have long: "n < int (length s) \<Longrightarrow> truncate s n = take (nat (n - 3)) s @ ''...''"
    using assms by (rule truncate_long)
  have marker: "endsWithEllipsis (truncate s n) \<longleftrightarrow> (n < int (length s) \<or> endsWithEllipsis s)"
  proof (cases "int (length s) \<le> n")
    case True
    then show ?thesis by (simp add: truncate_short)
  next
    case False
    with long have "truncate s n = take (nat (n - 3)) s @ ''...''"
      by simp
    with False show ?thesis
      by (simp only: endsWithEllipsis_append) simp
  qed
  from len long marker show ?thesis
    by (simp add: truncate_short)
qed

theorem C4_truncate_witness:
  "(3::int) \<le> 8
   \<and> int (length (truncate ''Hello, world'' 8)) \<le> 8
   \<and> truncate ''Hello, world'' 8 = ''Hello...''
   \<and> truncate ''Hello'' 8 = ''Hello''
   \<and> endsWithEllipsis (truncate ''Hello, world'' 8)
   \<and> \<not> endsWithEllipsis (truncate ''Hello'' 8)"
proof -
  have n: "(3::int) \<le> 8" by simp
  from C4_truncate [OF n, of "''Hello, world''"] C4_truncate [OF n, of "''Hello''"]
  show ?thesis by (simp add: endsWithEllipsis_def)
qed

section \<open>Properties of the ledger store\<close>

lemma cleanOldEntries_lookup:
  "cleanOldEntries now p u = Some t \<longleftrightarrow>
     p u = Some t \<and> t > now - 7 * 24 * 60 * 60 * 1000"
  by (auto simp: cleanOldEntries_def split: option.splits)

lemma cleanOldEntries_idem:
  "cleanOldEntries now (cleanOldEntries now p) = cleanOldEntries now p"
  by (rule ext) (simp add: cleanOldEntries_def split: option.splits)

text \<open>
  C6. \<open>cleanOldEntries\<close> returns a mapping that holds exactly the entries of its input
  whose timestamp is strictly greater than \<open>now\<close> minus seven days (604800000 ms), and
  applying it twice with the same clock reading is the same as applying it once.
\<close>

theorem C6_prune:
  "(\<forall>u t. cleanOldEntries now p u = Some t \<longleftrightarrow>
        (p u = Some t \<and> t > now - 604800000))
   \<and> cleanOldEntries now (cleanOldEntries now p) = cleanOldEntries now p"
  by (simp add: cleanOldEntries_lookup cleanOldEntries_idem)

theorem C6_prune_witness:
  "cleanOldEntries 1000000000 [''a'' \<mapsto> 400000000, ''b'' \<mapsto> 395200000] ''a'' = Some 400000000
   \<and> cleanOldEntries 1000000000 [''a'' \<mapsto> 400000000, ''b'' \<mapsto> 395200000] ''b'' = None"
proof -
  have "cleanOldEntries 1000000000 [''a'' \<mapsto> 400000000, ''b'' \<mapsto> 395200000] ''b'' \<noteq> Some 395200000"
    using C6_prune [of 1000000000 "[''a'' \<mapsto> 400000000, ''b'' \<mapsto> 395200000]"] by simp
  moreover have "cleanOldEntries 1000000000 [''a'' \<mapsto> 400000000, ''b'' \<mapsto> 395200000] ''a'' = Some 400000000"
    using C6_prune [of 1000000000 "[''a'' \<mapsto> 400000000, ''b'' \<mapsto> 395200000]"] by simp
  moreover have "cleanOldEntries 1000000000 [''a'' \<mapsto> 400000000, ''b'' \<mapsto> 395200000] ''b'' = None"
    by (simp add: cleanOldEntries_def)
  ultimately show ?thesis by simp
qed

section \<open>Carrying facts through the loops\<close>

lemma replay_append: "replay (a @ b) p = replay b (replay a p)"
  by (induction a arbitrary: p) auto

lemma replay_lastMark:
  "replay es p l = (case lastMark l es of None \<Rightarrow> p l | Some t \<Rightarrow> Some t)"
  by (induction es arbitrary: p) (auto split: option.splits Event.splits)

lemma lastMark_None: "lastMark l es = None \<longleftrightarrow> (\<forall>t. Marked l t \<notin> set es)"
  by (induction es) (auto split: option.splits Event.splits)

lemma lastMark_Some: "lastMark l es = Some t \<Longrightarrow> Marked l t \<in> set es"
  by (induction es) (auto split: option.splits Event.splits if_splits)

lemma wf_events_Nil: "wf_events w []"
  by (simp add: wf_events_def)

lemma wf_events_append: "wf_events w a \<Longrightarrow> wf_events w b \<Longrightarrow> wf_events w (a @ b)"
  unfolding wf_events_def list_ex_iff by (auto; blast)

lemma Seg_refl: "Seg w s s"
  by (simp add: Seg_def wf_events_Nil)

lemma Seg_trans: "Seg w s s' \<Longrightarrow> Seg w s' s'' \<Longrightarrow> Seg w s s''"
  unfolding Seg_def by (auto simp: replay_append intro: wf_events_append)

lemma Seg_handleArticle: "Seg w s (handleArticle w c u a s)"
  unfolding Seg_def
  by (auto simp: handleArticle_def isRelevant_def postToSlack_def markPosted_def record_event_def
      wf_events_def handled_def isSaved_def Let_def split: prod.splits)

lemma Seg_handleArticles: "Seg w s (handleArticles w c u as s)"
  by (induction as arbitrary: s) (auto intro: Seg_refl Seg_trans Seg_handleArticle)

lemma Seg_handleFeed: "Seg w s (handleFeed w c u t f s)"
proof -
  have "Seg w s (snd (processFeed w f (ledger s) t s))"
    by (simp add: Seg_def processFeed_def wf_events_def isSaved_def handled_def)
  then show ?thesis
    by (auto simp: handleFeed_def split: prod.splits intro: Seg_trans Seg_handleArticles)
qed

lemma Seg_handleFeeds: "Seg w s (handleFeeds w c u t fs s)"
  by (induction fs arbitrary: s) (auto intro: Seg_refl Seg_trans Seg_handleFeed)

lemma Seg_handleCategory: "Seg w s (handleCategory w feeds t c s)"
  by (auto simp: handleCategory_def Seg_refl Seg_handleFeeds split: option.splits)

lemma Seg_handleCategories: "Seg w s (handleCategories w feeds t cs s)"
  by (induction cs arbitrary: s) (auto intro: Seg_refl Seg_trans Seg_handleCategory)

lemma Kept_refl: "Kept l s s"
  by (simp add: Kept_def)

lemma Kept_trans: "Kept l s s' \<Longrightarrow> Kept l s' s'' \<Longrightarrow> Kept l s s''"
  unfolding Kept_def by auto

lemma Kept_handleArticle: "link a \<noteq> l \<Longrightarrow> Kept l s (handleArticle w c u a s)"
  unfolding Kept_def
  by (auto simp: handleArticle_def isRelevant_def postToSlack_def markPosted_def record_event_def
      about_def Let_def split: prod.splits)

lemma Kept_handleArticles:
  "\<forall>a \<in> set as. link a \<noteq> l \<Longrightarrow> Kept l s (handleArticles w c u as s)"
proof (induction as arbitrary: s)
  case Nil
  then show ?case by (simp add: Kept_refl)
next
  case (Cons a as)
  from Cons.prems have "Kept l s (handleArticle w c u a s)"
    by (simp add: Kept_handleArticle)
  moreover from Cons.prems
  have "Kept l (handleArticle w c u a s) (handleArticles w c u as (handleArticle w c u a s))"
    by (simp add: Cons.IH)
  ultimately show ?case
    by (auto intro: Kept_trans)
qed

lemma extractItem_link:
  "extractItem w f p t item = Some a \<Longrightarrow> item_link item = Some (link a) \<and> link a \<noteq> [] \<and> \<not> truthyNumber (p (link a))"
  by (auto simp: extractItem_def truthy_def Let_def split: option.splits if_splits)

lemma extractItems_link:
  "a \<in> set (extractItems w f p t items) \<Longrightarrow> \<not> truthyNumber (p (link a))"
  by (induction items) (auto split: option.splits dest: extractItem_link)

lemma Kept_handleFeed:
  assumes "truthyNumber (ledger s l)"
  shows "Kept l s (handleFeed w c u t f s)"
proof -
  obtain as s1 where pf: "processFeed w f (ledger s) t s = (as, s1)"
    by (cases "processFeed w f (ledger s) t s")
  then have "Kept l s s1"
    by (auto simp: processFeed_def Kept_def about_def)
  moreover from pf assms have "\<forall>a \<in> set as. link a \<noteq> l"
    by (auto simp: processFeed_def split: option.splits dest: extractItems_link)
  then have "Kept l s1 (handleArticles w c u as s1)"
    by (rule Kept_handleArticles)
  ultimately show ?thesis
    using pf by (auto simp: handleFeed_def intro: Kept_trans)
qed

lemma Kept_truthy: "Kept l s s' \<Longrightarrow> truthyNumber (ledger s l) \<Longrightarrow> truthyNumber (ledger s' l)"
  by (simp add: Kept_def)

lemma Kept_handleFeeds:
  "truthyNumber (ledger s l) \<Longrightarrow> Kept l s (handleFeeds w c u t fs s)"
proof (induction fs arbitrary: s)
  case Nil
  then show ?case by (simp add: Kept_refl)
next
  case (Cons f fs)
  from Cons.prems have k: "Kept l s (handleFeed w c u t f s)"
    by (rule Kept_handleFeed)
  from k Cons.prems have "truthyNumber (ledger (handleFeed w c u t f s) l)"
    by (rule Kept_truthy)
  then have "Kept l (handleFeed w c u t f s) (handleFeeds w c u t fs (handleFeed w c u t f s))"
    by (rule Cons.IH)
  with k show ?case by (auto intro: Kept_trans)
qed

lemma Kept_handleCategory:
  "truthyNumber (ledger s l) \<Longrightarrow> Kept l s (handleCategory w feeds t c s)"
  by (auto simp: handleCategory_def Kept_refl Kept_handleFeeds split: option.splits)

lemma Kept_handleCategories:
  "truthyNumber (ledger s l) \<Longrightarrow> Kept l s (handleCategories w feeds t cs s)"
proof (induction cs arbitrary: s)
  case Nil
  then show ?case by (simp add: Kept_refl)
next
  case (Cons c cs)
  from Cons.prems have k: "Kept l s (handleCategory w feeds t c s)"
    by (rule Kept_handleCategory)
  from k Cons.prems have "truthyNumber (ledger (handleCategory w feeds t c s) l)"
    by (rule Kept_truthy)
  then have "Kept l (handleCategory w feeds t c s)
      (handleCategories w feeds t cs (handleCategory w feeds t c s))"
    by (rule Cons.IH)
  with k show ?case by (auto intro: Kept_trans)
qed






lemma trace_loaded: "trace (loaded w s) = trace s" and disk_loaded: "disk (loaded w s) = disk s"
  and ledger_loaded:
    "ledger (loaded w s) = cleanOldEntries (Date_now w (step s)) (loadPosted (disk s))"
  by (simp_all add: loaded_def)

lemma Seg_beforeSave: "Seg w (loaded w s) (beforeSave w feeds s)"
  unfolding beforeSave_def by (rule Seg_handleCategories)

lemma main_Some:
  "FEEDS_FILE w = Some feeds \<Longrightarrow> main w s = savePosted w (beforeSave w feeds s)"
  by (simp add: main_def)

lemma savePosted_facts:
  "trace (snd (savePosted w s)) = trace s @ [Saved (writeFileSync w (step s) = None)]"
  "ledger (snd (savePosted w s)) = ledger s"
  "writeFileSync w (step s) = None \<Longrightarrow> fst (savePosted w s) = Inr ()"
  "writeFileSync w (step s) = None \<Longrightarrow> disk (snd (savePosted w s)) = Stored (ledger s)"
  "writeFileSync w (step s) \<noteq> None \<Longrightarrow> fst (savePosted w s) = Inl WriteError"
  by (auto simp: savePosted_def split: option.splits)

text \<open>The events of a run whose configuration loads: the category loop's, then the save.\<close>

lemma run_events_shape:
  assumes "FEEDS_FILE w = Some feeds"
  obtains es where "trace (beforeSave w feeds s) = trace s @ es"
    and "run_events w s = es @ [Saved (writeFileSync w (step (beforeSave w feeds s)) = None)]"
    and "wf_events w es"
    and "ledger (beforeSave w feeds s) = replay es (ledger (loaded w s))"
proof -
  from Seg_beforeSave [of w s feeds] obtain es where
    es: "trace (beforeSave w feeds s) = trace s @ es" "wf_events w es"
        "ledger (beforeSave w feeds s) = replay es (ledger (loaded w s))"
    by (auto simp: Seg_def trace_loaded)
  from assms es(1) have
    "run_events w s = es @ [Saved (writeFileSync w (step (beforeSave w feeds s)) = None)]"
    by (simp add: run_events_def main_Some savePosted_facts)
  with es show ?thesis using that by blast
qed

lemma wf_events_saved: "wf_events w es \<Longrightarrow> filter isSaved es = []"
  by (simp add: wf_events_def list_ex_iff filter_empty_conv)

lemma dom_replay: "dom p \<subseteq> dom (replay es p)"
proof (induction es arbitrary: p)
  case Nil
  then show ?case by simp
next
  case (Cons e es)
  have "dom p \<subseteq> dom (case e of Marked l t \<Rightarrow> p(l \<mapsto> t) | _ \<Rightarrow> p)"
    by (auto split: Event.splits)
  also have "\<dots> \<subseteq> dom (replay (e # es) p)"
    using Cons.IH by simp
  finally show ?case .
qed

lemma lastMark_snoc_Saved: "lastMark l (es @ [Saved b]) = lastMark l es"
  by (induction es) (auto split: option.splits)

lemma handleArticle_dom: "dom (ledger s) \<subseteq> dom (ledger (handleArticle w c u a s))"
proof -
  from Seg_handleArticle [of w s c u a] obtain es
    where "ledger (handleArticle w c u a s) = replay es (ledger s)"
    by (auto simp: Seg_def)
  then show ?thesis
    by (simp add: dom_replay)
qed

lemma Kept_beforeSave:
  "truthyNumber (ledger (loaded w s) l) \<Longrightarrow> Kept l (loaded w s) (beforeSave w feeds s)"
  unfolding beforeSave_def by (rule Kept_handleCategories)


lemma cleanOldEntries_positive:
  "604800000 \<le> now \<Longrightarrow> cleanOldEntries now p l = Some t \<Longrightarrow> 0 < t"
  by (simp add: cleanOldEntries_lookup)

lemma lastMark_Some_iff: "(\<exists>t. lastMark l es = Some t) \<longleftrightarrow> (\<exists>t. Marked l t \<in> set es)"
  using lastMark_None [of l es] by (cases "lastMark l es") auto




lemma agree_fields:
  assumes "agree w w'"
  shows "FEEDS_FILE w' = FEEDS_FILE w" "Date_now w' = Date_now w"
    "Date_getTime w' = Date_getTime w" "parseURL w' = parseURL w"
    "anthropic w' = anthropic w" "slack w' = slack w"
    "writeFileSync w' = writeFileSync w" "imgSrc w' = imgSrc w"
    "truthy (ANTHROPIC_API_KEY w') = truthy (ANTHROPIC_API_KEY w)"
  using assms by (simp_all add: agree_def)

lemma agree_extractItem:
  assumes "agree w w'"
  shows "extractItem w' f p t item = extractItem w f p t item"
proof -
  have "getImageUrl w' item = getImageUrl w item"
    by (simp add: getImageUrl_def agree_fields [OF assms] Let_def)
  then show ?thesis
    by (simp add: extractItem_def agree_fields [OF assms] Let_def split: option.splits)
qed

lemma agree_extractItems:
  "agree w w' \<Longrightarrow> extractItems w' f p t items = extractItems w f p t items"
  by (induction items) (simp_all add: agree_extractItem split: option.splits)

lemma agree_processFeed: "agree w w' \<Longrightarrow> processFeed w' f p t s = processFeed w f p t s"
  by (simp add: processFeed_def agree_extractItems agree_fields split: option.splits)

lemma agree_handleArticle:
  assumes "agree w w'"
  shows "handleArticle w' c u a s = handleArticle w c u a s"
proof -
  have 1: "isRelevant w' a c s = isRelevant w a c s"
    by (simp add: isRelevant_def agree_fields [OF assms])
  have 2: "postToSlack w' = postToSlack w"
    by (simp add: postToSlack_def agree_fields [OF assms] fun_eq_iff)
  have 3: "markPosted w' = markPosted w"
    by (simp add: markPosted_def agree_fields [OF assms] fun_eq_iff)
  show ?thesis
    unfolding handleArticle_def 1 2 3 by (rule refl)
qed

lemma agree_handleArticles:
  "agree w w' \<Longrightarrow> handleArticles w' c u as s = handleArticles w c u as s"
  by (induction as arbitrary: s) (simp_all add: agree_handleArticle)

lemma agree_handleFeeds:
  "agree w w' \<Longrightarrow> handleFeeds w' c u t fs s = handleFeeds w c u t fs s"
  by (induction fs arbitrary: s)
     (simp_all add: handleFeed_def agree_processFeed agree_handleArticles)

lemma agree_handleCategory:
  assumes "agree w w'"
  shows "handleCategory w' feeds t c s = handleCategory w feeds t c s"
proof (cases "truthy (WEBHOOK_MAP w c)")
  case True
  with assms have "WEBHOOK_MAP w' c = WEBHOOK_MAP w c"
    by (simp add: agree_def)
  with assms show ?thesis
    by (simp add: handleCategory_def agree_handleFeeds split: option.splits)
next
  case False
  moreover from False assms have "\<not> truthy (WEBHOOK_MAP w' c)"
    by (simp add: agree_def)
  ultimately show ?thesis
    by (simp add: handleCategory_def)
qed

lemma agree_handleCategories:
  "agree w w' \<Longrightarrow> handleCategories w' feeds t cs s = handleCategories w feeds t cs s"
  by (induction cs arbitrary: s) (simp_all add: agree_handleCategory)

lemma agree_main:
  assumes "agree w w'"
  shows "main w' s = main w s"
proof -
  from assms have "loaded w' s = loaded w s" "cutoffTime_of w' s = cutoffTime_of w s"
    by (simp_all add: agree_fields loaded_def cutoffTime_of_def)
  with assms have 1: "beforeSave w' feeds s = beforeSave w feeds s" for feeds
    by (simp add: beforeSave_def agree_handleCategories)
  from assms have 2: "savePosted w' = savePosted w"
    by (simp add: agree_fields savePosted_def fun_eq_iff)
  from assms have 3: "FEEDS_FILE w' = FEEDS_FILE w"
    by (simp add: agree_fields)
  show ?thesis
    unfolding main_def 1 2 3 by (rule refl)
qed


text \<open>
  What one handling of an article writes: the clock reading of the step at which the
  link is marked, or nothing when the publish failed.
\<close>

lemma handleArticle_irrelevant:
  assumes "isRelevant w a c s = (False, s1)"
  shows "ledger (handleArticle w c u a s) = (ledger s)(link a \<mapsto> Date_now w (step s1))"
proof -
  from assms have "ledger s1 = ledger s"
    by (auto simp: isRelevant_def split: if_splits)
  with assms show ?thesis
    by (simp add: handleArticle_def markPosted_def record_event_def)
qed

lemma handleArticle_published:
  assumes "isRelevant w a c s = (True, s1)"
    and "fst (postToSlack w u a (record_event (Classified a c True) s1))"
  shows "ledger (handleArticle w c u a s) = (ledger s)(link a \<mapsto> Date_now w (Suc (step s1)))"
proof -
  from assms(1) have "ledger s1 = ledger s"
    by (auto simp: isRelevant_def split: if_splits)
  with assms show ?thesis
    by (simp add: handleArticle_def postToSlack_def markPosted_def record_event_def
        split: prod.splits)
qed

lemma handleArticle_publish_failed:
  assumes "isRelevant w a c s = (True, s1)"
    and "\<not> fst (postToSlack w u a (record_event (Classified a c True) s1))"
  shows "ledger (handleArticle w c u a s) = ledger s"
proof -
  from assms(1) have "ledger s1 = ledger s"
    by (auto simp: isRelevant_def split: if_splits)
  with assms show ?thesis
    by (simp add: handleArticle_def postToSlack_def record_event_def split: prod.splits)
qed

section \<open>Reading the oracle's answer\<close>

lemma answerOf_blocks:
  "jsProp data ''content'' = Some (JArr (block # rest)) \<Longrightarrow>
     answerOf data = (case block of JNull \<Rightarrow> Some None | _ \<Rightarrow> blockText block)"
  by (cases data) (auto simp: answerOf_def firstBlockText_def jsFirst_def jsProp_def)

lemma answerOf_empty:
  "jsProp data ''content'' = Some (JArr []) \<Longrightarrow> answerOf data = Some None"
  by (cases data) (auto simp: answerOf_def firstBlockText_def jsFirst_def jsProp_def)

lemma answerOf_throws:
  "data = JNull \<or> jsProp data ''content'' = None \<or> jsProp data ''content'' = Some JNull
     \<Longrightarrow> answerOf data = None"
  by (cases data) (auto simp: answerOf_def)

lemma blockText_string:
  "jsProp block ''text'' = Some (JStr str) \<Longrightarrow>
     (case block of JNull \<Rightarrow> Some None | _ \<Rightarrow> blockText block) = Some (Some (trim (toLowerCase str)))"
  by (cases block) (auto simp: blockText_def jsProp_def)

lemma blockText_missing:
  "jsProp block ''text'' = None \<or> jsProp block ''text'' = Some JNull \<Longrightarrow>
     (case block of JNull \<Rightarrow> Some None | _ \<Rightarrow> blockText block) = Some None"
  by (cases block) (auto simp: blockText_def jsProp_def)

lemma blockText_other:
  "jsProp block ''text'' = Some v \<Longrightarrow> v \<noteq> JNull \<Longrightarrow> \<forall>str. v \<noteq> JStr str \<Longrightarrow>
     (case block of JNull \<Rightarrow> Some None | _ \<Rightarrow> blockText block) = None"
  by (cases block; cases v) (auto simp: blockText_def jsProp_def)

lemma isRelevant_answer:
  "truthy (ANTHROPIC_API_KEY w) \<Longrightarrow> anthropic w (step s) c a = OracleResponse True (Some data) \<Longrightarrow>
     fst (isRelevant w a c s) = (case answerOf data of None \<Rightarrow> True | Some answer \<Rightarrow> answer = Some ''yes'')"
  by (simp add: isRelevant_def)

section \<open>Evaluating the scenarios\<close>

lemmas scenario_defs = sampleWorld_def sampleFeeds_def sampleFeed_def sampleEntry_def
  sampleArticle_def freshState_def recentDate_def worldFirstPostFails_def worldOracle_def
  storedState_def entryA_def entryB_def worldOnce_def worldTwice_def worldBadDate_def
  worldRetry_def worldFailThenPost_def worldNoWrite_def

lemmas run_defs = main_def beforeSave_def savePosted_def loaded_def cutoffTime_of_def HOURS_24_def
  categories_def handleCategory_def handleFeed_def handleArticle_def processFeed_def
  extractItem_def isRelevant_def postToSlack_def markPosted_def record_event_def truthy_def
  truthyNumber_def lessThanNumber_def getSummary_def getImageUrl_def orElse_def trim_def
  isWhiteSpace_def truncate_def loadPosted_def cleanOldEntries_def run_events_def

lemma stored_cleaned:
  "cleanOldEntries (Date_now worldOnce (step (storedState oldLedger)))
       (loadPosted (disk (storedState oldLedger)))
     = cleanOldEntries 1700000000000 oldLedger"
  by (simp add: scenario_defs loadPosted_def)

lemma stored_cleaned_dom: "dom (cleanOldEntries 1700000000000 oldLedger) = {''b''}"
  by (auto simp: cleanOldEntries_def oldLedger_def dom_def split: if_splits)

lemma stored_cleaned_b: "cleanOldEntries 1700000000000 oldLedger ''b'' = Some 1699990000000"
  by (simp add: cleanOldEntries_def oldLedger_def)

lemma stored_run_events:
  "run_events worldOnce (storedState oldLedger) =
      [Fetched ''http://f'',
       Classified (sampleArticle ''a'') technology True,
       Published ''hook'' (sampleArticle ''a'') True,
       Marked ''a'' 1700000000004,
       Delayed 1000,
       Saved True]"
  by (simp add: run_defs scenario_defs oldLedger_def)

lemma missing_pubDate_skipped:
  "\<not> truthy (pubDate item) \<Longrightarrow> 0 < cutoff \<Longrightarrow> extractItem w feed p cutoff item = None"
  by (simp add: extractItem_def lessThanNumber_def split: option.splits)

lemma failing_run_events:
  "run_events worldFailThenPost freshState =
      [Fetched ''http://f'',
       Classified (sampleArticle ''a'') technology True,
       Published ''hook'' (sampleArticle ''a'') False,
       Delayed 1000,
       Classified (sampleArticle ''b'') technology True,
       Published ''hook'' (sampleArticle ''b'') True,
       Marked ''b'' 1700000000005,
       Delayed 1000,
       Saved True]"
  by (simp add: run_defs scenario_defs)


text \<open>
  The test \<open>posted[link]\<close> at a timestamp 0, outside a run: called directly with the
  ledger \<open>{"a": 0}\<close>, \<open>processFeed\<close> extracts an entry with link \<open>a\<close>. A run
  does not hand it that ledger: a file holding \<open>{"a": 0}\<close> is cleaned to the empty
  ledger first.
\<close>

lemma processFeed_zero_timestamp_direct_call:
  "fst (processFeed worldOnce sampleFeed [''a'' \<mapsto> 0] 1699913600000 freshState)
     = [sampleArticle ''a'']"
  by (simp add: run_defs scenario_defs)

lemma zero_timestamp_pruned:
  "cleanOldEntries (Date_now worldOnce (step (storedState [''a'' \<mapsto> 0])))
       (loadPosted (disk (storedState [''a'' \<mapsto> 0]))) ''a'' = None"
  by (simp add: scenario_defs loadPosted_def cleanOldEntries_def)

section \<open>The claims about the pipeline\<close>

subsection \<open>C1: links already in the ledger\<close>



subsection \<open>C2: entries without a usable publish date\<close>

text \<open>
  C2 (the code departs from the claim). The claim: an entry whose publish date is missing
  or cannot be parsed counts as published at epoch 0 and is never classified or published.
  A missing date does count as 0 (lemma \<open>missing_pubDate_skipped\<close>). A date that
  is present and does not parse gives \<open>NaN\<close>, which is not below the cutoff: in the run
  below the entry with the date \<open>not a date\<close> is classified, published and marked.
\<close>

theorem C2_unparseable_date_is_published:
  "Date_getTime worldBadDate ''not a date'' = None
   \<and> run_events worldBadDate freshState =
      [Fetched ''http://f'',
       Classified (sampleArticle ''a'') technology True,
       Published ''hook'' (sampleArticle ''a'') True,
       Marked ''a'' 1700000000004,
       Delayed 1000,
       Saved True]"
  by (simp add: run_defs scenario_defs)

subsection \<open>C3: what a publish outcome leaves in the ledger\<close>

text \<open>
  C3 (as stated, refuted). The claim: after a failed publish the article's link is
  absent from the saved ledger. One feed lists the link \<open>a\<close> twice; the first publish
  fails, the second succeeds, and the saved ledger holds \<open>a\<close>.
\<close>

theorem C3_failed_then_published_counterexample:
  "run_events worldRetry freshState =
      [Fetched ''http://f'',
       Classified (sampleArticle ''a'') technology True,
       Published ''hook'' (sampleArticle ''a'') False,
       Delayed 1000,
       Classified (sampleArticle ''a'') technology True,
       Published ''hook'' (sampleArticle ''a'') True,
       Marked ''a'' 1700000000005,
       Delayed 1000,
       Saved True]
   \<and> loadPosted (disk (snd (main worldRetry freshState))) ''a''
       = Some 1700000000005"
  by (simp add: run_defs scenario_defs)

text \<open>
  C3 (amended). In a run whose feeds configuration loads: every article that was
  classified as not relevant or published with success has its link in the final ledger,
  mapped to the clock reading of the last assignment to that link in the run; if a publish
  failed and no article with the same link was so handled in the run, the link is absent
  from the final ledger, provided the clock read at least seven days past the epoch when
  the ledger was cleaned (the cleaned ledger then holds no timestamp 0); and when the run
  ends without error the file holds exactly the final ledger.
\<close>

theorem C3_publish_outcome_in_ledger:
  assumes "FEEDS_FILE w = Some feeds"
  shows "(\<forall>a. list_ex (handled a) (run_events w s) \<longrightarrow>
            (\<exists>t. ledger (snd (main w s)) (link a) = Some t
                 \<and> lastMark (link a) (run_events w s) = Some t
                 \<and> t \<in> range (Date_now w)))
     \<and> (\<forall>u a. 604800000 \<le> Date_now w (step s)
               \<and> Published u a False \<in> set (run_events w s)
               \<and> (\<forall>a'. link a' = link a \<longrightarrow> \<not> list_ex (handled a') (run_events w s))
            \<longrightarrow> ledger (snd (main w s)) (link a) = None)
     \<and> (fst (main w s) = Inr () \<longrightarrow>
          loadPosted (disk (snd (main w s))) = ledger (snd (main w s)))"
proof -
  from assms obtain es where
    es: "run_events w s = es @ [Saved (writeFileSync w (step (beforeSave w feeds s)) = None)]"
        "wf_events w es"
        "ledger (beforeSave w feeds s) = replay es (ledger (loaded w s))"
    by (rule run_events_shape)
  from assms have fin: "ledger (snd (main w s)) = ledger (beforeSave w feeds s)"
    by (simp add: main_Some savePosted_facts)
  have hd: "list_ex (handled a) (run_events w s) \<longleftrightarrow> list_ex (handled a) es" for a
    by (simp add: es(1) handled_def)
  have mk: "Marked l t \<in> set (run_events w s) \<longleftrightarrow> Marked l t \<in> set es" for l t
    by (auto simp: es(1))
  have lm: "lastMark l (run_events w s) = lastMark l es" for l
    by (simp add: es(1) lastMark_snoc_Saved)
  have val: "ledger (snd (main w s)) l =
      (case lastMark l es of None \<Rightarrow> ledger (loaded w s) l | Some t \<Rightarrow> Some t)" for l
    by (simp add: fin es(3) replay_lastMark)
  have 1: "\<exists>t. ledger (snd (main w s)) (link a) = Some t
              \<and> lastMark (link a) (run_events w s) = Some t \<and> t \<in> range (Date_now w)"
    if "list_ex (handled a) (run_events w s)" for a
  proof -
    from that es(2) obtain t0 where "Marked (link a) t0 \<in> set es"
      unfolding wf_events_def hd by blast
    then obtain t where t: "lastMark (link a) es = Some t"
      using lastMark_Some_iff [of "link a" es] by blast
    then have "Marked (link a) t \<in> set es"
      by (rule lastMark_Some)
    with es(2) have "t \<in> range (Date_now w)"
      unfolding wf_events_def by blast
    with t show ?thesis
      by (simp add: val lm)
  qed
  have 2: "ledger (snd (main w s)) (link a) = None"
    if clock: "604800000 \<le> Date_now w (step s)"
      and fail: "Published u a False \<in> set (run_events w s)"
      and none: "\<forall>a'. link a' = link a \<longrightarrow> \<not> list_ex (handled a') (run_events w s)"
    for u a
  proof -
    have "Marked (link a) t \<notin> set es" for t
    proof
      assume "Marked (link a) t \<in> set es"
      with es(2) obtain a' where "link a' = link a" "list_ex (handled a') es"
        unfolding wf_events_def by blast
      with none show False by (simp add: hd)
    qed
    then have "lastMark (link a) es = None"
      by (simp add: lastMark_None)
    then have same: "ledger (snd (main w s)) (link a) = ledger (loaded w s) (link a)"
      by (simp add: val)
    show ?thesis
    proof (cases "ledger (loaded w s) (link a)")
      case None
      with same show ?thesis by simp
    next
      case (Some t)
      with clock have "0 < t"
        by (auto simp: ledger_loaded dest: cleanOldEntries_positive)
      with Some have "truthyNumber (ledger (loaded w s) (link a))"
        by (simp add: truthyNumber_def)
      then have "Kept (link a) (loaded w s) (beforeSave w feeds s)"
        by (rule Kept_beforeSave)
      then obtain es' where es': "trace (beforeSave w feeds s) = trace s @ es'"
          "\<not> list_ex (about (link a)) es'"
        by (auto simp: Kept_def trace_loaded)
      from assms es'(1) have
        "run_events w s = es' @ [Saved (writeFileSync w (step (beforeSave w feeds s)) = None)]"
        by (simp add: run_events_def main_Some savePosted_facts)
      with fail have "Published u a False \<in> set es'"
        by auto
      with es'(2) show ?thesis
        by (auto simp: list_ex_iff about_def)
    qed
  qed
  have 3: "loadPosted (disk (snd (main w s))) = ledger (snd (main w s))"
    if "fst (main w s) = Inr ()"
    using that assms by (auto simp: main_Some savePosted_def loadPosted_def split: option.splits)
  from 1 2 3 show ?thesis by blast
qed

text \<open>
  The amended C3 at a concrete run: the publish of \<open>a\<close> fails, that of \<open>b\<close>
  succeeds.
\<close>

theorem C3_publish_outcome_in_ledger_witness:
  "FEEDS_FILE worldFailThenPost
     = Some sampleFeeds
   \<and> Published ''hook'' (sampleArticle ''a'') False
       \<in> set (run_events worldFailThenPost freshState)
   \<and> ledger (snd (main worldFailThenPost freshState)) ''a'' = None
   \<and> Published ''hook'' (sampleArticle ''b'') True
       \<in> set (run_events worldFailThenPost freshState)
   \<and> ledger (snd (main worldFailThenPost freshState)) ''b''
       = Some 1700000000005"
proof -
  let ?w = "worldFailThenPost"
  note ev = failing_run_events
  have cfg: "FEEDS_FILE ?w = Some sampleFeeds"
    by (simp add: scenario_defs)
  note t = C3_publish_outcome_in_ledger [OF cfg, of freshState]
  have clock: "604800000 \<le> Date_now ?w (step freshState)"
    by (simp add: scenario_defs)
  have failed: "Published ''hook'' (sampleArticle ''a'') False \<in> set (run_events ?w freshState)"
    by (simp add: ev)
  have posted: "Published ''hook'' (sampleArticle ''b'') True \<in> set (run_events ?w freshState)"
    by (simp add: ev)
  have alone: "\<forall>a'. link a' = link (sampleArticle ''a'') \<longrightarrow> \<not> list_ex (handled a') (run_events ?w freshState)"
    by (auto simp: ev handled_def sampleArticle_def)
  have hb: "list_ex (handled (sampleArticle ''b'')) (run_events ?w freshState)"
    by (simp add: ev handled_def)
  from conjunct1 [OF conjunct2 [OF t]] clock failed alone
  have "ledger (snd (main ?w freshState)) (link (sampleArticle ''a'')) = None"
    by fast
  then have a: "ledger (snd (main ?w freshState)) ''a'' = None"
    by (simp add: sampleArticle_def)
  from conjunct1 [OF t] hb
  have "\<exists>t. ledger (snd (main ?w freshState)) (link (sampleArticle ''b'')) = Some t
            \<and> lastMark (link (sampleArticle ''b'')) (run_events ?w freshState) = Some t
            \<and> t \<in> range (Date_now ?w)"
    by fast
  then have b: "ledger (snd (main ?w freshState)) ''b'' = Some 1700000000005"
    by (auto simp: ev sampleArticle_def)
  from cfg failed posted a b show ?thesis
    by simp
qed

subsection \<open>C5: the classifier\<close>

text \<open>
  C5 (as stated, refuted). The claim sorts the responses into failed calls (true, a
  malformed body among them) and answers (true exactly for "yes"). Two bodies that both
  parse and both lack the answer are treated differently: \<open>{}\<close> makes the read of
  \<open>data.content[0]\<close> throw, which gives true, and \<open>{"content": [{"type": "text"}]}\<close>
  runs through the optional chain to \<open>undefined\<close>, which gives false.
\<close>

theorem C5_malformed_body_counterexample:
  "fst (isRelevant (worldOracle (JObj [])) (sampleArticle ''a'') technology freshState)
   \<and> \<not> fst (isRelevant (worldOracle (JObj [(''content'', JArr [JObj [(''type'', JStr ''text'')]])]))
              (sampleArticle ''a'') technology freshState)"
  by (simp add: isRelevant_def answerOf_def firstBlockText_def blockText_def jsProp_def jsFirst_def
      truthy_def scenario_defs)

text \<open>
  C5 (amended). \<open>isRelevant\<close> returns true, without a request, when the API key is
  absent or empty. With a key it returns true when the request throws, when the response
  is not ok, when the body does not parse, and when reading the answer throws (the body
  is \<open>null\<close>, its \<open>content\<close> is missing or \<open>null\<close>, or the first block's
  \<open>text\<close> is neither a string nor \<open>null\<close>); when the first block of \<open>content\<close>
  carries a string it returns true exactly when that string, in lower case and trimmed,
  is \<open>yes\<close>; when \<open>content\<close> is an empty list or the first block has no
  \<open>text\<close> (or a \<open>null\<close> one) it returns false.
\<close>

theorem C5_isRelevant:
 "(\<not> truthy (ANTHROPIC_API_KEY w) \<longrightarrow> isRelevant w a c s = (True, s))
  \<and> (truthy (ANTHROPIC_API_KEY w) \<longrightarrow>
       (anthropic w (step s) c a = OracleThrows \<longrightarrow> fst (isRelevant w a c s))
     \<and> (\<forall>body. anthropic w (step s) c a = OracleResponse False body \<longrightarrow> fst (isRelevant w a c s))
     \<and> (anthropic w (step s) c a = OracleResponse True None \<longrightarrow> fst (isRelevant w a c s))
     \<and> (\<forall>data. anthropic w (step s) c a = OracleResponse True (Some data) \<longrightarrow>
          (data = JNull \<or> jsProp data ''content'' = None \<or> jsProp data ''content'' = Some JNull
             \<longrightarrow> fst (isRelevant w a c s))
        \<and> (\<forall>block rest v. jsProp data ''content'' = Some (JArr (block # rest))
               \<and> jsProp block ''text'' = Some v \<and> v \<noteq> JNull \<and> (\<forall>str. v \<noteq> JStr str)
             \<longrightarrow> fst (isRelevant w a c s))
        \<and> (\<forall>block rest str. jsProp data ''content'' = Some (JArr (block # rest))
               \<and> jsProp block ''text'' = Some (JStr str)
             \<longrightarrow> fst (isRelevant w a c s) = (trim (toLowerCase str) = ''yes''))
        \<and> (jsProp data ''content'' = Some (JArr []) \<longrightarrow> \<not> fst (isRelevant w a c s))
        \<and> (\<forall>block rest. jsProp data ''content'' = Some (JArr (block # rest))
               \<and> (jsProp block ''text'' = None \<or> jsProp block ''text'' = Some JNull)
             \<longrightarrow> \<not> fst (isRelevant w a c s))))"
proof -
  have nokey: "isRelevant w a c s = (True, s)" if "\<not> truthy (ANTHROPIC_API_KEY w)"
    using that by (simp add: isRelevant_def)
  have failopen: "fst (isRelevant w a c s)"
    if "anthropic w (step s) c a = OracleThrows
        \<or> (\<exists>body. anthropic w (step s) c a = OracleResponse False body)
        \<or> anthropic w (step s) c a = OracleResponse True None"
    using that by (auto simp: isRelevant_def)
  have body: "(data = JNull \<or> jsProp data ''content'' = None \<or> jsProp data ''content'' = Some JNull
             \<longrightarrow> fst (isRelevant w a c s))
        \<and> (\<forall>block rest v. jsProp data ''content'' = Some (JArr (block # rest))
               \<and> jsProp block ''text'' = Some v \<and> v \<noteq> JNull \<and> (\<forall>str. v \<noteq> JStr str)
             \<longrightarrow> fst (isRelevant w a c s))
        \<and> (\<forall>block rest str. jsProp data ''content'' = Some (JArr (block # rest))
               \<and> jsProp block ''text'' = Some (JStr str)
             \<longrightarrow> fst (isRelevant w a c s) = (trim (toLowerCase str) = ''yes''))
        \<and> (jsProp data ''content'' = Some (JArr []) \<longrightarrow> \<not> fst (isRelevant w a c s))
        \<and> (\<forall>block rest. jsProp data ''content'' = Some (JArr (block # rest))
               \<and> (jsProp block ''text'' = None \<or> jsProp block ''text'' = Some JNull)
             \<longrightarrow> \<not> fst (isRelevant w a c s))"
    if key: "truthy (ANTHROPIC_API_KEY w)"
      and reply: "anthropic w (step s) c a = OracleResponse True (Some data)" for data
  proof -
    note r = isRelevant_answer [OF key reply]
    have 1: "fst (isRelevant w a c s)"
      if "data = JNull \<or> jsProp data ''content'' = None \<or> jsProp data ''content'' = Some JNull"
      using that by (simp add: r answerOf_throws)
    have 2: "fst (isRelevant w a c s)"
      if "jsProp data ''content'' = Some (JArr (block # rest))" "jsProp block ''text'' = Some v"
        "v \<noteq> JNull" "\<forall>str. v \<noteq> JStr str" for block rest v
      using that by (simp add: r answerOf_blocks blockText_other)
    have 3: "fst (isRelevant w a c s) = (trim (toLowerCase str) = ''yes'')"
      if "jsProp data ''content'' = Some (JArr (block # rest))"
        "jsProp block ''text'' = Some (JStr str)" for block rest str
      using that by (simp add: r answerOf_blocks blockText_string)
    have 4: "\<not> fst (isRelevant w a c s)" if "jsProp data ''content'' = Some (JArr [])"
      using that by (simp add: r answerOf_empty)
    have 5: "\<not> fst (isRelevant w a c s)"
      if "jsProp data ''content'' = Some (JArr (block # rest))"
        "jsProp block ''text'' = None \<or> jsProp block ''text'' = Some JNull" for block rest
      using that by (simp add: r answerOf_blocks blockText_missing)
    from 1 2 3 4 5 show ?thesis by blast
  qed
  from nokey failopen body show ?thesis by blast
qed

text \<open>
  The amended C5 at concrete responses: the answers \<open>" Yes "\<close> and \<open>no\<close>, a body
  without \<open>content\<close>, and a world without a key.
\<close>

theorem C5_isRelevant_witness:
  "truthy (ANTHROPIC_API_KEY (worldOracle (JObj [(''content'', JArr [JObj [(''type'', JStr ''text''), (''text'', JStr '' Yes '')]])])))
   \<and> fst (isRelevant (worldOracle (JObj [(''content'', JArr [JObj [(''type'', JStr ''text''), (''text'', JStr '' Yes '')]])]))
            (sampleArticle ''a'') technology freshState)
   \<and> \<not> fst (isRelevant (worldOracle (JObj [(''content'', JArr [JObj [(''type'', JStr ''text''), (''text'', JStr ''no'')]])]))
              (sampleArticle ''a'') technology freshState)
   \<and> fst (isRelevant (worldOracle (JObj [(''error'', JStr ''overloaded'')]))
            (sampleArticle ''a'') technology freshState)
   \<and> isRelevant (sampleWorld []) (sampleArticle ''a'') technology freshState = (True, freshState)"
proof -
  let ?blk = "\<lambda>str. JObj [(''type'', JStr ''text''), (''text'', JStr str)]"
  let ?body = "\<lambda>str. JObj [(''content'', JArr [?blk str])]"
  have key: "truthy (ANTHROPIC_API_KEY (worldOracle body))" for body
    by (simp add: worldOracle_def truthy_def)
  have reply: "anthropic (worldOracle body) (step freshState) technology (sampleArticle ''a'')
      = OracleResponse True (Some body)" for body
    by (simp add: worldOracle_def)
  have c: "jsProp (?body str) ''content'' = Some (JArr [?blk str])" for str
    by (simp add: jsProp_def)
  have t: "jsProp (?blk str) ''text'' = Some (JStr str)" for str
    by (simp add: jsProp_def)
  have e: "jsProp (JObj [(''error'', JStr ''overloaded'')]) ''content'' = None"
    by (simp add: jsProp_def)
  have nokey: "\<not> truthy (ANTHROPIC_API_KEY (sampleWorld []))"
    by (simp add: scenario_defs truthy_def)
  have yes: "trim (toLowerCase '' Yes '') = ''yes''"
    by code_simp
  have no: "trim (toLowerCase ''no'') \<noteq> ''yes''"
    by code_simp
  from C5_isRelevant [of "worldOracle (?body '' Yes '')" "sampleArticle ''a''" technology freshState]
       key reply c t yes
  have 1: "fst (isRelevant (worldOracle (?body '' Yes '')) (sampleArticle ''a'') technology freshState)"
    by fast
  from C5_isRelevant [of "worldOracle (?body ''no'')" "sampleArticle ''a''" technology freshState]
       key reply c t no
  have 2: "\<not> fst (isRelevant (worldOracle (?body ''no'')) (sampleArticle ''a'') technology freshState)"
    by fast
  from C5_isRelevant [of "worldOracle (JObj [(''error'', JStr ''overloaded'')])" "sampleArticle ''a''" technology freshState]
       key reply e
  have 3: "fst (isRelevant (worldOracle (JObj [(''error'', JStr ''overloaded'')])) (sampleArticle ''a'') technology freshState)"
    by fast
  from C5_isRelevant [of "sampleWorld []" "sampleArticle ''a''" technology freshState] nokey
  have 4: "isRelevant (sampleWorld []) (sampleArticle ''a'') technology freshState = (True, freshState)"
    by fast
  from key 1 2 3 4 show ?thesis
    by simp
qed

subsection \<open>C7: saving the ledger\<close>

text \<open>
  C7. In a run whose feeds configuration loads, \<open>savePosted\<close> is called exactly
  once and its call is the last event of the run, after the whole category loop; a write
  that goes through returns normally and leaves the file holding exactly the in-memory
  ledger (whatever the file held before); a write that fails makes \<open>main\<close> end with
  the error.
\<close>

theorem C7_save_once_last_fatal:
  assumes "FEEDS_FILE w = Some feeds"
  shows "trace (snd (main w s)) = trace s @ run_events w s
     \<and> length (filter isSaved (run_events w s)) = 1
     \<and> last (run_events w s) = Saved (writeFileSync w (step (beforeSave w feeds s)) = None)
     \<and> ledger (snd (main w s)) = ledger (beforeSave w feeds s)
     \<and> (writeFileSync w (step (beforeSave w feeds s)) = None \<longrightarrow>
          fst (main w s) = Inr ()
          \<and> disk (snd (main w s)) = Stored (ledger (beforeSave w feeds s)))
     \<and> (writeFileSync w (step (beforeSave w feeds s)) \<noteq> None \<longrightarrow>
          fst (main w s) = Inl WriteError)"
proof -
  from assms obtain es where
    es: "trace (beforeSave w feeds s) = trace s @ es"
        "run_events w s = es @ [Saved (writeFileSync w (step (beforeSave w feeds s)) = None)]"
        "wf_events w es"
    by (rule run_events_shape)
  from assms es(1,2) have "trace (snd (main w s)) = trace s @ run_events w s"
    by (simp add: main_Some savePosted_facts)
  moreover from es(2,3) have "length (filter isSaved (run_events w s)) = 1"
    by (simp add: wf_events_saved isSaved_def)
  moreover from es(2) have
    "last (run_events w s) = Saved (writeFileSync w (step (beforeSave w feeds s)) = None)"
    by simp
  ultimately show ?thesis
    using assms by (simp add: main_Some savePosted_facts)
qed

text \<open>
  C7 at two concrete runs: one in which the write goes through, one in which it fails.
\<close>

theorem C7_save_once_last_fatal_witness:
  "FEEDS_FILE worldOnce = Some sampleFeeds
   \<and> length (filter isSaved (run_events worldOnce freshState)) = 1
   \<and> last (run_events worldOnce freshState) = Saved True
   \<and> fst (main worldOnce freshState) = Inr ()
   \<and> loadPosted (disk (snd (main worldOnce freshState))) ''a''
        = Some 1700000000004
   \<and> last (run_events worldNoWrite freshState) = Saved False
   \<and> fst (main worldNoWrite freshState) = Inl WriteError"
proof -
  have 1: "FEEDS_FILE worldOnce = Some sampleFeeds"
    by (simp add: scenario_defs)
  have 2: "FEEDS_FILE worldNoWrite = Some sampleFeeds"
    by (simp add: scenario_defs)
  have 3: "writeFileSync worldOnce n = None" "writeFileSync worldNoWrite n = Some Unparseable"
    for n by (simp_all add: scenario_defs)
  have 4: "ledger (beforeSave worldOnce sampleFeeds freshState) ''a''
      = Some 1700000000004"
    by (simp add: run_defs scenario_defs)
  from C7_save_once_last_fatal [OF 1, of freshState]
       C7_save_once_last_fatal [OF 2, of freshState] 1 3 4
  show ?thesis
    by (simp add: loadPosted_def)
qed

subsection \<open>C8: the same link twice in one batch\<close>



subsection \<open>C9: the ledger only grows during a run\<close>

text \<open>
  C9. In a run whose feeds configuration loads, every key of the cleaned ledger is a key
  of the final ledger; the final ledger is the cleaned one overwritten, link by link, with
  the last assignment the run made to that link; every assignment writes a clock reading;
  a run that ends without error leaves the final ledger in the file; and no single
  handling of an article removes a key.
\<close>

theorem C9_ledger_keys_grow:
  assumes "FEEDS_FILE w = Some feeds"
  shows "dom (cleanOldEntries (Date_now w (step s)) (loadPosted (disk s)))
           \<subseteq> dom (ledger (snd (main w s)))
     \<and> (\<forall>l. ledger (snd (main w s)) l =
            (case lastMark l (run_events w s) of
               None \<Rightarrow> cleanOldEntries (Date_now w (step s)) (loadPosted (disk s)) l
             | Some t \<Rightarrow> Some t))
     \<and> (\<forall>l t. Marked l t \<in> set (run_events w s) \<longrightarrow> t \<in> range (Date_now w))
     \<and> (fst (main w s) = Inr () \<longrightarrow>
          disk (snd (main w s)) = Stored (ledger (snd (main w s))))
     \<and> (\<forall>c u a s0. dom (ledger s0) \<subseteq> dom (ledger (handleArticle w c u a s0)))"
proof -
  from assms obtain es where
    es: "run_events w s = es @ [Saved (writeFileSync w (step (beforeSave w feeds s)) = None)]"
        "wf_events w es"
        "ledger (beforeSave w feeds s) = replay es (ledger (loaded w s))"
    by (rule run_events_shape)
  from assms have fin: "ledger (snd (main w s)) = ledger (beforeSave w feeds s)"
    by (simp add: main_Some savePosted_facts)
  have 1: "dom (cleanOldEntries (Date_now w (step s)) (loadPosted (disk s)))
           \<subseteq> dom (ledger (snd (main w s)))"
    using dom_replay [of "ledger (loaded w s)" es] by (simp add: fin es(3) ledger_loaded)
  have 2: "ledger (snd (main w s)) l =
            (case lastMark l (run_events w s) of
               None \<Rightarrow> cleanOldEntries (Date_now w (step s)) (loadPosted (disk s)) l
             | Some t \<Rightarrow> Some t)" for l
    by (simp add: fin es(1,3) lastMark_snoc_Saved replay_lastMark ledger_loaded)
  have 3: "t \<in> range (Date_now w)" if "Marked l t \<in> set (run_events w s)" for l t
    using that es(1,2) by (auto simp: wf_events_def)
  have 4: "disk (snd (main w s)) = Stored (ledger (snd (main w s)))" if "fst (main w s) = Inr ()"
    using that assms by (auto simp: main_Some savePosted_def split: option.splits)
  from 1 2 3 4 handleArticle_dom show ?thesis
    by blast
qed

text \<open>
  C9 at a concrete run: the file holds \<open>b\<close> (recent) and \<open>c\<close> (older than
  seven days); cleaning keeps \<open>b\<close>, the run adds \<open>a\<close>.
\<close>

theorem C9_ledger_keys_grow_witness:
  "FEEDS_FILE worldOnce = Some sampleFeeds
   \<and> dom (cleanOldEntries 1700000000000 oldLedger) = {''b''}
   \<and> ledger (snd (main worldOnce
                     (storedState oldLedger))) ''b'' = Some 1699990000000
   \<and> ledger (snd (main worldOnce
                     (storedState oldLedger))) ''a'' = Some 1700000000004
   \<and> ''b'' \<in> dom (ledger (snd (main worldOnce
                     (storedState oldLedger))))"
proof -
  let ?w = "worldOnce"
  let ?s = "storedState oldLedger"
  have 1: "FEEDS_FILE ?w = Some sampleFeeds"
    by (simp add: scenario_defs)
  note t = C9_ledger_keys_grow [OF 1, of ?s, unfolded stored_cleaned]
  have sub: "dom (cleanOldEntries 1700000000000 oldLedger)
           \<subseteq> dom (ledger (snd (main ?w ?s)))"
    by (rule conjunct1 [OF t])
  have val: "\<forall>l. ledger (snd (main ?w ?s)) l =
            (case lastMark l (run_events ?w ?s) of
               None \<Rightarrow> cleanOldEntries 1700000000000 oldLedger l
             | Some t \<Rightarrow> Some t)"
    by (rule conjunct1 [OF conjunct2 [OF t]])
  have "''b'' \<in> dom (cleanOldEntries 1700000000000 oldLedger)"
    by (simp add: stored_cleaned_dom)
  with sub have "''b'' \<in> dom (ledger (snd (main ?w ?s)))"
    by (rule subsetD)
  moreover from val have "ledger (snd (main ?w ?s)) ''b'' = Some 1699990000000"
    by (simp add: stored_run_events stored_cleaned_b)
  moreover from val have "ledger (snd (main ?w ?s)) ''a'' = Some 1700000000004"
    by (simp add: stored_run_events)
  ultimately show ?thesis
    using 1 stored_cleaned_dom by simp
qed

subsection \<open>C10: configuration by truthiness\<close>

text \<open>
  C10. A category whose webhook is the empty string is skipped, as one without a
  webhook is, and the two runs are the same; with the empty string as API key
  \<open>isRelevant\<close> returns true without a request, as it does without a key, and the two
  runs are the same.
\<close>

theorem C10_truthiness_of_configuration:
  "handleCategory (w\<lparr>WEBHOOK_MAP := (WEBHOOK_MAP w)(c := Some [])\<rparr>) feeds t c s = s
   \<and> handleCategory (w\<lparr>WEBHOOK_MAP := (WEBHOOK_MAP w)(c := None)\<rparr>) feeds t c s = s
   \<and> main (w\<lparr>WEBHOOK_MAP := (WEBHOOK_MAP w)(c := Some [])\<rparr>) s
       = main (w\<lparr>WEBHOOK_MAP := (WEBHOOK_MAP w)(c := None)\<rparr>) s
   \<and> isRelevant (w\<lparr>ANTHROPIC_API_KEY := Some []\<rparr>) a c s = (True, s)
   \<and> isRelevant (w\<lparr>ANTHROPIC_API_KEY := None\<rparr>) a c s = (True, s)
   \<and> main (w\<lparr>ANTHROPIC_API_KEY := Some []\<rparr>) s = main (w\<lparr>ANTHROPIC_API_KEY := None\<rparr>) s"
proof -
  have "agree (w\<lparr>WEBHOOK_MAP := (WEBHOOK_MAP w)(c := None)\<rparr>)
              (w\<lparr>WEBHOOK_MAP := (WEBHOOK_MAP w)(c := Some [])\<rparr>)"
    by (simp add: agree_def truthy_def)
  then have 1: "main (w\<lparr>WEBHOOK_MAP := (WEBHOOK_MAP w)(c := Some [])\<rparr>) s
       = main (w\<lparr>WEBHOOK_MAP := (WEBHOOK_MAP w)(c := None)\<rparr>) s"
    by (rule agree_main)
  have "agree (w\<lparr>ANTHROPIC_API_KEY := None\<rparr>) (w\<lparr>ANTHROPIC_API_KEY := Some []\<rparr>)"
    by (simp add: agree_def truthy_def)
  then have 2: "main (w\<lparr>ANTHROPIC_API_KEY := Some []\<rparr>) s
      = main (w\<lparr>ANTHROPIC_API_KEY := None\<rparr>) s"
    by (rule agree_main)
  from 1 2 show ?thesis
    by (simp add: handleCategory_def isRelevant_def truthy_def)
qed

text \<open>
  C10 at concrete worlds: with the empty webhook nothing is fetched, and the oracle that
  would answer \<open>no\<close> is never asked.
\<close>

theorem C10_truthiness_of_configuration_witness:
  "main (worldOnce
           \<lparr>WEBHOOK_MAP := (WEBHOOK_MAP worldOnce)(technology := Some [])\<rparr>)
        freshState
    = main (worldOnce
           \<lparr>WEBHOOK_MAP := (WEBHOOK_MAP worldOnce)(technology := None)\<rparr>)
        freshState
   \<and> run_events (worldOnce
           \<lparr>WEBHOOK_MAP := (WEBHOOK_MAP worldOnce)(technology := Some [])\<rparr>)
        freshState = [Saved True]
   \<and> isRelevant ((worldOracle (JStr ''no''))\<lparr>ANTHROPIC_API_KEY := Some []\<rparr>)
        (sampleArticle ''a'') technology freshState = (True, freshState)
   \<and> main ((worldOracle (JStr ''no''))\<lparr>ANTHROPIC_API_KEY := Some []\<rparr>) freshState
       = main ((worldOracle (JStr ''no''))\<lparr>ANTHROPIC_API_KEY := None\<rparr>) freshState"
proof -
  let ?w = "worldOnce"
  have "run_events (?w\<lparr>WEBHOOK_MAP := (WEBHOOK_MAP ?w)(technology := Some [])\<rparr>) freshState = [Saved True]"
    by (simp add: run_defs scenario_defs)
  with C10_truthiness_of_configuration [of ?w technology sampleFeeds 0 freshState]
       C10_truthiness_of_configuration [of "worldOracle (JStr ''no'')" technology sampleFeeds 0 freshState
          "sampleArticle ''a''"]
  show ?thesis
    by simp
qed

end
